theory Spec2Isabelle
  imports Main
begin

section \<open>Data model\<close>

text \<open>
  The types of \<^verbatim>\<open>frontend/src/types/index.ts\<close> and the \<^verbatim>\<open>LocalMessage\<close> interface of
  the chat hook. A JavaScript string is a list of characters, a character being a code
  unit below 256. An optional field (\<^verbatim>\<open>sources?\<close>, \<^verbatim>\<open>isStreaming?\<close>) is an \<open>option\<close>,
  with \<open>None\<close> for \<^verbatim>\<open>undefined\<close>.
\<close>

datatype role = User | Assistant

text \<open>
  A value as \<^verbatim>\<open>JSON.parse\<close> returns it. What arrives from the backend is cast to its
  declared type without a check (\<^verbatim>\<open>JSON.parse(...) as SSEEvent\<close>), so at run time an
  event, and the sources it carries, is any such value. A number is kept as the text
  that \<^verbatim>\<open>String\<close> prints for it; the members of an object are in the order of the text.
\<close>

datatype json =
    JNull
  | JBool bool
  | JNum string
  | JStr string
  | JArr "json list"
  | JObj "(string \<times> json) list"

text \<open>
  Reading a property of a value that is not \<^verbatim>\<open>null\<close>: a member of an object (the last
  one of that name), \<^verbatim>\<open>undefined\<close> otherwise. Neither \<^verbatim>\<open>type\<close> nor \<^verbatim>\<open>data\<close>, the only
  properties read here, exists on a number, a string, a boolean or an array.
\<close>

definition field :: "json \<Rightarrow> string \<Rightarrow> json option" where
  "field v k = (case v of JObj members \<Rightarrow> map_of (rev members) k | _ \<Rightarrow> None)"

text \<open>
  \<^verbatim>\<open>SSEEvent = SSESourcesEvent | SSEChunkEvent | SSEDoneEvent\<close>: an event of the declared
  type, by its \<^verbatim>\<open>type\<close> tag, and the value it is on the wire. The elements of a sources
  array are never looked at by the session and are carried as they came.
\<close>

datatype SSEEvent =
    Sources json
  | Chunk string
  | Done

fun wire :: "SSEEvent \<Rightarrow> json" where
  "wire (Sources d) = JObj [(''type'', JStr ''sources''), (''data'', d)]"
| "wire (Chunk d) = JObj [(''type'', JStr ''chunk''), (''data'', JStr d)]"
| "wire Done = JObj [(''type'', JStr ''done'')]"

declare wire.simps [simp del]

text \<open>
  The declared types as predicates on values: \<^verbatim>\<open>ChatSource\<close> (\<^verbatim>\<open>content: string\<close>,
  \<^verbatim>\<open>document_id: string\<close>, \<^verbatim>\<open>score?: number\<close>) and the three interfaces of \<^verbatim>\<open>SSEEvent\<close>.
\<close>

definition is_string :: "json option \<Rightarrow> bool" where
  "is_string v = (case v of Some (JStr s) \<Rightarrow> True | _ \<Rightarrow> False)"

definition is_ChatSource :: "json \<Rightarrow> bool" where
  "is_ChatSource v =
     (is_string (field v ''content'') \<and> is_string (field v ''document_id'') \<and>
      (case field v ''score'' of None \<Rightarrow> True | Some (JNum n) \<Rightarrow> True | Some other \<Rightarrow> False))"

definition is_SSEEvent :: "json \<Rightarrow> bool" where
  "is_SSEEvent v =
     (if field v ''type'' = Some (JStr ''sources'') then
        (case field v ''data'' of Some (JArr xs) \<Rightarrow> list_all is_ChatSource xs | _ \<Rightarrow> False)
      else if field v ''type'' = Some (JStr ''chunk'') then is_string (field v ''data'')
      else field v ''type'' = Some (JStr ''done''))"

record LocalMessage =
  msg_id :: string
  role :: role
  content :: string
  sources :: "json option"
  isStreaming :: "bool option"

text \<open>\<^verbatim>\<open>ChatMessage\<close>, one entry of the persisted history the backend returns.\<close>

record ChatMessage =
  cm_id :: string
  cm_knowledge_base_id :: string
  cm_role :: role
  cm_content :: string
  cm_sources :: "string list option"
  cm_created_at :: string

text \<open>A thrown JavaScript \<^verbatim>\<open>Error\<close> (or \<^verbatim>\<open>DOMException\<close>): its \<^verbatim>\<open>name\<close> and \<^verbatim>\<open>message\<close>.\<close>

record js_error =
  name :: string
  message :: string

section \<open>Frame parser\<close>

text \<open>
  The body of the read loop of \<^verbatim>\<open>streamChat\<close>:
  \<^verbatim>\<open>
  buffer += decoder.decode(value, { stream: true });
  const lines = buffer.split('\n');
  buffer = lines.pop() || '';
  for (const line of lines) {
    if (line.startsWith('data: ')) {
      try { const event = JSON.parse(line.slice(6)) as SSEEvent; onEvent(event); }
      catch { /* Ignore parse errors */ }
    }
  }
  \<close>
  \<^verbatim>\<open>JSON.parse\<close> belongs to the platform; it is the parameter \<open>D\<close> of everything below,
  with \<open>None\<close> where \<^verbatim>\<open>JSON.parse\<close> throws. Whatever value it returns is passed to
  \<^verbatim>\<open>onEvent\<close>: the cast checks nothing. When \<^verbatim>\<open>onEvent\<close> throws, the same \<^verbatim>\<open>catch\<close>
  swallows it. A fragment is the text the incremental decoder returned for one chunk of
  the body.
\<close>

abbreviation nl :: char where
  "nl \<equiv> CHR 0x0A"

text \<open>\<^verbatim>\<open>s.split(sep)\<close> for a one-character separator: never empty, \<open>[[]]\<close> on the empty string.\<close>

fun split_on :: "char \<Rightarrow> string \<Rightarrow> string list" where
  "split_on sep [] = [[]]"
| "split_on sep (c # cs) =
     (if c = sep then [] # split_on sep cs
      else (case split_on sep cs of
              [] \<Rightarrow> [[c]]
            | l # ls \<Rightarrow> (c # l) # ls))"

text \<open>
  \<^verbatim>\<open>lines.pop() || ''\<close>: the last element is removed and returned; \<^verbatim>\<open>undefined\<close> (an
  empty array) and the empty string both give \<^verbatim>\<open>''\<close>.
\<close>

definition pop :: "string list \<Rightarrow> string \<times> string list" where
  "pop ls = (if ls = [] then ([], []) else (last ls, butlast ls))"

text \<open>One complete line: the values \<^verbatim>\<open>onEvent\<close> is called with (at most one).\<close>

definition handle_line :: "(string \<Rightarrow> json option) \<Rightarrow> string \<Rightarrow> json list" where
  "handle_line D line =
     (if take 6 line = ''data: '' then
        (case D (drop 6 line) of
           Some event \<Rightarrow> [event]
         | None \<Rightarrow> [])
      else [])"

text \<open>One iteration of the loop: the events passed to \<^verbatim>\<open>onEvent\<close>, in order, and the new buffer.\<close>

definition feed :: "(string \<Rightarrow> json option) \<Rightarrow> string \<Rightarrow> string \<Rightarrow> json list \<times> string" where
  "feed D buffer fragment =
     (let (rest, lines) = pop (split_on nl (buffer @ fragment))
      in (concat (map (handle_line D) lines), rest))"

text \<open>The loop over the fragments of a body, from a given buffer.\<close>

fun feed_all :: "(string \<Rightarrow> json option) \<Rightarrow> string \<Rightarrow> string list \<Rightarrow> json list \<times> string" where
  "feed_all D buffer [] = ([], buffer)"
| "feed_all D buffer (f # fs) =
     (let (evs, buffer') = feed D buffer f;
          (evs', buffer'') = feed_all D buffer' fs
      in (evs @ evs', buffer''))"

text \<open>The parser as \<^verbatim>\<open>streamChat\<close> starts it: \<^verbatim>\<open>let buffer = ''\<close>.\<close>

definition parse_fragments :: "(string \<Rightarrow> json option) \<Rightarrow> string list \<Rightarrow> json list \<times> string" where
  "parse_fragments D fs = feed_all D [] fs"

section \<open>Stream transport\<close>

text \<open>
  \<^verbatim>\<open>streamChat(kbId, data, onEvent, onError?)\<close> starts a promise chain
  \<^verbatim>\<open>fetch(...).then(async (response) => { ... read loop ... }).catch((error) => ...)\<close>
  and returns \<^verbatim>\<open>() => controller.abort()\<close>. The chain is suspended at an \<^verbatim>\<open>await\<close>
  (of \<^verbatim>\<open>fetch\<close>, then of \<^verbatim>\<open>reader.read()\<close>) until the platform answers, or it has
  settled: the loop left by \<^verbatim>\<open>break\<close>, or the \<^verbatim>\<open>catch\<close> handler run. The model is
  the chain's program counter and its buffer; each answer of the platform resumes it.
\<close>

datatype pc = AwaitResponse | AwaitRead | Settled

record transport =
  pc :: pc
  buffer :: string
  hasOnError :: bool

text \<open>
  What the platform answers: \<^verbatim>\<open>fetch\<close> resolved (\<^verbatim>\<open>response.ok\<close>, whether
  \<^verbatim>\<open>response.body\<close> is there, \<^verbatim>\<open>response.status\<close>), \<^verbatim>\<open>reader.read()\<close> resolved with a
  decoded fragment or with \<^verbatim>\<open>done\<close>, or the awaited promise was rejected.
\<close>

datatype io =
    Response bool bool nat
  | ReadValue string
  | ReadDone
  | Rejected js_error

text \<open>What the transport calls: \<^verbatim>\<open>onEvent(event)\<close> or \<^verbatim>\<open>onError(error)\<close>.\<close>

datatype callback = OnEvent json | OnError js_error

text \<open>Decimal digits of a number, as a template literal prints it.\<close>

definition digit :: "nat \<Rightarrow> char" where
  "digit d = ''0123456789'' ! d"

fun dec :: "nat \<Rightarrow> string" where
  "dec n = (if n < 10 then [digit n] else dec (n div 10) @ [digit (n mod 10)])"

declare dec.simps [simp del]

definition streamChat :: "bool \<Rightarrow> transport" where
  "streamChat has_on_error =
     \<lparr>pc = AwaitResponse, buffer = [], hasOnError = has_on_error\<rparr>"

text \<open>
  \<^verbatim>\<open>.catch((error) => { if (error.name !== 'AbortError' && onError) onError(error); })\<close>
\<close>

definition catch_handler :: "transport \<Rightarrow> js_error \<Rightarrow> callback list \<times> transport" where
  "catch_handler t e =
     (if name e \<noteq> ''AbortError'' \<and> hasOnError t then [OnError e] else [],
      t\<lparr>pc := Settled\<rparr>)"

text \<open>
  The chain resumed by an answer of the platform. A settled chain awaits nothing, and
  an answer to a question that was not asked does not occur; both leave it as it is.
\<close>

fun resume :: "(string \<Rightarrow> json option) \<Rightarrow> transport \<Rightarrow> io \<Rightarrow> callback list \<times> transport" where
  "resume D t (Response ok has_body status) =
     (if pc t = AwaitResponse then
        (if \<not> ok then catch_handler t \<lparr>name = ''Error'', message = ''HTTP '' @ dec status\<rparr>
         else if \<not> has_body then catch_handler t \<lparr>name = ''Error'', message = ''No response body''\<rparr>
         else ([], t\<lparr>pc := AwaitRead, buffer := []\<rparr>))
      else ([], t))"
| "resume D t (ReadValue fragment) =
     (if pc t = AwaitRead then
        (let (evs, buffer') = feed D (buffer t) fragment
         in (map OnEvent evs, t\<lparr>buffer := buffer'\<rparr>))
      else ([], t))"
| "resume D t ReadDone =
     (if pc t = AwaitRead then ([], t\<lparr>pc := Settled\<rparr>) else ([], t))"
| "resume D t (Rejected e) =
     (if pc t = Settled then ([], t) else catch_handler t e)"

text \<open>
  The returned handle, \<^verbatim>\<open>() => controller.abort()\<close>: the pending \<^verbatim>\<open>fetch\<close> or
  \<^verbatim>\<open>read\<close>, if there is one, is rejected with an \<^verbatim>\<open>AbortError\<close>; with nothing
  pending (the chain has settled, or the signal is aborted already) nothing happens.
\<close>

definition abort_error :: js_error where
  "abort_error = \<lparr>name = ''AbortError'', message = ''The operation was aborted.''\<rparr>"

definition cancel :: "(string \<Rightarrow> json option) \<Rightarrow> transport \<Rightarrow> callback list \<times> transport" where
  "cancel D t = resume D t (Rejected abort_error)"

text \<open>What happens to one stream: an answer of the platform, or a call of the handle.\<close>

datatype input = IO io | Cancel

fun step :: "(string \<Rightarrow> json option) \<Rightarrow> transport \<Rightarrow> input \<Rightarrow> callback list \<times> transport" where
  "step D t (IO x) = resume D t x"
| "step D t Cancel = cancel D t"

fun run :: "(string \<Rightarrow> json option) \<Rightarrow> transport \<Rightarrow> input list \<Rightarrow> callback list \<times> transport" where
  "run D t [] = ([], t)"
| "run D t (x # xs) =
     (let (cbs, t') = step D t x;
          (cbs', t'') = run D t' xs
      in (cbs @ cbs', t''))"

section \<open>Chat session: the \<^verbatim>\<open>useChat\<close> hook\<close>

text \<open>
  The hook's state: \<^verbatim>\<open>messages\<close>, \<^verbatim>\<open>loading\<close>, \<^verbatim>\<open>error\<close>, \<^verbatim>\<open>abortRef.current\<close> and the
  \<^verbatim>\<open>kbId\<close> it was called with. Every streaming \<^verbatim>\<open>sendMessage\<close> creates a closure
  with its own \<^verbatim>\<open>assistantId\<close> and \<^verbatim>\<open>sources\<close> variable and a transport of its own;
  these are the entries of \<open>streams\<close>, and the handle kept in \<^verbatim>\<open>abortRef\<close> is the
  index of the stream it cancels.
\<close>

record stream =
  assistantId :: string
  sources_var :: "json option"
  conn :: transport

record chat =
  kbId :: "string option"
  messages :: "LocalMessage list"
  loading :: bool
  error :: "string option"
  abortRef :: "nat option"
  streams :: "stream list"

text \<open>A value caught by \<^verbatim>\<open>catch (e)\<close>: \<^verbatim>\<open>e instanceof Error\<close> or not.\<close>

datatype thrown = ErrorObj js_error | NotAnError

record ChatResponse =
  resp_message :: string
  resp_sources :: "json option"

text \<open>\<^verbatim>\<open>useState\<close> and \<^verbatim>\<open>useRef\<close> initial values.\<close>

definition useChat :: "string option \<Rightarrow> chat" where
  "useChat k =
     \<lparr>kbId = k, messages = [], loading = False, error = None, abortRef = None, streams = []\<rparr>"

text \<open>\<^verbatim>\<open>!kbId\<close>: \<^verbatim>\<open>null\<close> or the empty string.\<close>

definition no_kb :: "string option \<Rightarrow> bool" where
  "no_kb k = (case k of None \<Rightarrow> True | Some s \<Rightarrow> s = [])"

text \<open>
  \<^verbatim>\<open>String.prototype.trim\<close> strips white space and line terminators from both ends. Among
  the code units below 256 these are tab, line feed, vertical tab, form feed, carriage
  return, space and the no-break space U+00A0.
\<close>

definition is_space :: "char \<Rightarrow> bool" where
  "is_space c =
     (c \<in> {CHR 0x09, CHR 0x0A, CHR 0x0B, CHR 0x0C, CHR 0x0D, CHR 0x20, CHR 0xA0})"

definition trim :: "string \<Rightarrow> string" where
  "trim s = rev (dropWhile is_space (rev (dropWhile is_space s)))"

text \<open>\<^verbatim>\<open>e instanceof Error ? e.message : fallback\<close>\<close>

definition error_text :: "thrown \<Rightarrow> string \<Rightarrow> string" where
  "error_text e fallback = (case e of ErrorObj x \<Rightarrow> message x | NotAnError \<Rightarrow> fallback)"

text \<open>
  The effect on \<^verbatim>\<open>[kbId]\<close>, with the answer of \<^verbatim>\<open>api.getChatHistory\<close> (not asked
  for when there is no knowledge base). A failed load is logged and changes nothing.
\<close>

definition local_message :: "ChatMessage \<Rightarrow> LocalMessage" where
  "local_message m =
     \<lparr>msg_id = cm_id m, role = cm_role m, content = cm_content m,
      sources = None, isStreaming = None\<rparr>"

definition changeKb :: "chat \<Rightarrow> string option \<Rightarrow> thrown + ChatMessage list \<Rightarrow> chat" where
  "changeKb st k history =
     (if no_kb k then st\<lparr>kbId := k, messages := []\<rparr>
      else (case history of
              Inr h \<Rightarrow> st\<lparr>kbId := k, messages := map local_message h\<rparr>
            | Inl e \<Rightarrow> st\<lparr>kbId := k\<rparr>))"

text \<open>
  \<^verbatim>\<open>sendMessage(content, useStreaming = true)\<close> up to its first suspension. The two
  numbers are what \<^verbatim>\<open>Date.now()\<close> returns at its two calls.
\<close>

definition sendMessage :: "chat \<Rightarrow> string \<Rightarrow> bool \<Rightarrow> nat \<Rightarrow> nat \<Rightarrow> chat" where
  "sendMessage st text useStreaming now1 now2 =
     (if no_kb (kbId st) \<or> trim text = [] then st
      else
        (let userMsg = \<lparr>msg_id = ''user-'' @ dec now1, role = User, content = trim text,
                         sources = None, isStreaming = None\<rparr>;
             st1 = st\<lparr>error := None, loading := True, messages := messages st @ [userMsg]\<rparr>
         in if useStreaming then
              (let aid = ''assistant-'' @ dec now2;
                   assistantMsg = \<lparr>msg_id = aid, role = Assistant, content = [],
                                   sources = None, isStreaming = Some True\<rparr>
               in st1\<lparr>messages := messages st1 @ [assistantMsg],
                      streams := streams st1 @
                        [\<lparr>assistantId = aid, sources_var = None, conn = streamChat True\<rparr>],
                      abortRef := Some (length (streams st1))\<rparr>)
            else st1))"

text \<open>
  The non-streaming branch after \<^verbatim>\<open>await api.sendMessage\<close>: the assistant message or
  the error, and \<^verbatim>\<open>finally setLoading(false)\<close>. The sources of the response are an array
  or \<^verbatim>\<open>null\<close>, here \<open>None\<close>, which \<^verbatim>\<open>response.sources || undefined\<close> turns into
  \<^verbatim>\<open>undefined\<close>.
\<close>

definition sendMessage_reply :: "chat \<Rightarrow> thrown + ChatResponse \<Rightarrow> nat \<Rightarrow> chat" where
  "sendMessage_reply st reply now =
     (case reply of
        Inr response \<Rightarrow>
          st\<lparr>messages := messages st @
                [\<lparr>msg_id = ''assistant-'' @ dec now, role = Assistant,
                  content = resp_message response, sources = resp_sources response,
                  isStreaming = None\<rparr>],
             loading := False\<rparr>
      | Inl e \<Rightarrow> st\<lparr>error := Some (error_text e ''Failed to send message''), loading := False\<rparr>)"

text \<open>
  String concatenation with a value, \<^verbatim>\<open>'' + v\<close>: a string is itself, \<^verbatim>\<open>undefined\<close>, \<^verbatim>\<open>null\<close>
  and the booleans print their names, an array prints its elements joined by commas
  (\<^verbatim>\<open>null\<close> as nothing), an object prints \<^verbatim>\<open>[object Object]\<close>. (For an object that has
  a member named \<^verbatim>\<open>toString\<close> the concatenation throws instead, inside the state
  update; no property below uses such a value.)
\<close>

fun join :: "string \<Rightarrow> string list \<Rightarrow> string" where
  "join sep [] = []"
| "join sep [x] = x"
| "join sep (x # y # ys) = x @ sep @ join sep (y # ys)"

fun to_string :: "json \<Rightarrow> string" where
  "to_string JNull = ''null''"
| "to_string (JBool b) = (if b then ''true'' else ''false'')"
| "to_string (JNum n) = n"
| "to_string (JStr s) = s"
| "to_string (JArr xs) = join '','' (map (\<lambda>x. if x = JNull then [] else to_string x) xs)"
| "to_string (JObj members) = ''[object Object]''"

definition text_of :: "json option \<Rightarrow> string" where
  "text_of v = (case v of None \<Rightarrow> ''undefined'' | Some x \<Rightarrow> to_string x)"

text \<open>
  The event callback \<^verbatim>\<open>sendMessage\<close> passes to \<^verbatim>\<open>streamChat\<close>, for stream \<open>i\<close>:
  \<^verbatim>\<open>
  if (event.type === 'sources') { sources = event.data; }
  else if (event.type === 'chunk') {
    setMessages((prev) => prev.map((m) =>
      m.id === assistantId ? { ...m, content: m.content + event.data } : m)); }
  else if (event.type === 'done') {
    setMessages((prev) => prev.map((m) =>
      m.id === assistantId ? { ...m, isStreaming: false, sources } : m));
    setLoading(false); }
  \<close>
  On \<^verbatim>\<open>null\<close> the first test throws a \<^verbatim>\<open>TypeError\<close>, which the read loop swallows.
\<close>

definition onEvent :: "nat \<Rightarrow> json \<Rightarrow> chat \<Rightarrow> chat" where
  "onEvent i event st =
     (if i < length (streams st) then
        (let s = streams st ! i in
         if event = JNull then st
         else if field event ''type'' = Some (JStr ''sources'') then
           st\<lparr>streams := (streams st)[i := s\<lparr>sources_var := field event ''data''\<rparr>]\<rparr>
         else if field event ''type'' = Some (JStr ''chunk'') then
           st\<lparr>messages :=
                map (\<lambda>m. if msg_id m = assistantId s
                          then m\<lparr>content := content m @ text_of (field event ''data'')\<rparr> else m)
                  (messages st)\<rparr>
         else if field event ''type'' = Some (JStr ''done'') then
           st\<lparr>messages :=
                map (\<lambda>m. if msg_id m = assistantId s
                          then m\<lparr>isStreaming := Some False, sources := sources_var s\<rparr> else m)
                  (messages st),
              loading := False\<rparr>
         else st)
      else st)"

text \<open>The error callback: \<^verbatim>\<open>(err) => { setError(err.message); setLoading(false); }\<close>\<close>

definition onError :: "js_error \<Rightarrow> chat \<Rightarrow> chat" where
  "onError err st = st\<lparr>error := Some (message err), loading := False\<rparr>"

definition call :: "nat \<Rightarrow> chat \<Rightarrow> callback \<Rightarrow> chat" where
  "call i st cb = (case cb of OnEvent e \<Rightarrow> onEvent i e st | OnError e \<Rightarrow> onError e st)"

text \<open>Stream \<open>i\<close> takes a step; the callbacks it makes are returned.\<close>

definition conn_step :: "(string \<Rightarrow> json option) \<Rightarrow> chat \<Rightarrow> nat \<Rightarrow> input \<Rightarrow> callback list \<times> chat" where
  "conn_step D st i x =
     (if i < length (streams st) then
        (let s = streams st ! i;
             (cbs, t') = step D (conn s) x
         in (cbs, st\<lparr>streams := (streams st)[i := s\<lparr>conn := t'\<rparr>]\<rparr>))
      else ([], st))"

text \<open>The platform answers stream \<open>i\<close>, and the callbacks of that stream run.\<close>

definition deliver :: "(string \<Rightarrow> json option) \<Rightarrow> chat \<Rightarrow> nat \<Rightarrow> io \<Rightarrow> chat" where
  "deliver D st i x = (let (cbs, st') = conn_step D st i (IO x) in foldl (call i) st' cbs)"

text \<open>
  \<^verbatim>\<open>stopStreaming\<close>. The handle is called first; what the aborted chain calls back, it
  calls after this function has returned.
\<close>

definition stopStreaming :: "(string \<Rightarrow> json option) \<Rightarrow> chat \<Rightarrow> chat" where
  "stopStreaming D st =
     (case abortRef st of
        None \<Rightarrow> st
      | Some i \<Rightarrow>
          (let (cbs, st1) = conn_step D st i Cancel;
               st2 = st1\<lparr>abortRef := None, loading := False,
                         messages :=
                           map (\<lambda>m. if isStreaming m = Some True
                                     then m\<lparr>isStreaming := Some False\<rparr> else m)
                             (messages st1)\<rparr>
           in foldl (call i) st2 cbs))"

text \<open>
  \<^verbatim>\<open>clearHistory\<close>, with what \<^verbatim>\<open>await api.clearChatHistory(kbId)\<close> did: \<open>None\<close> when
  it returned, the thrown value otherwise (no request is made without a knowledge base).
\<close>

definition clearHistory :: "chat \<Rightarrow> thrown option \<Rightarrow> chat" where
  "clearHistory st outcome =
     (if no_kb (kbId st) then st
      else (case outcome of
              None \<Rightarrow> st\<lparr>messages := []\<rparr>
            | Some e \<Rightarrow> st\<lparr>error := Some (error_text e ''Failed to clear history'')\<rparr>))"

subsection \<open>The \<^verbatim>\<open>Chat\<close> component\<close>

text \<open>
  \<^verbatim>\<open>handleSubmit\<close> of the form, on the component's \<^verbatim>\<open>input\<close> state and the hook:
  \<^verbatim>\<open>if (!input.trim() || loading) return; sendMessage(input); setInput('');\<close>
\<close>

definition handleSubmit :: "string \<times> chat \<Rightarrow> nat \<Rightarrow> nat \<Rightarrow> string \<times> chat" where
  "handleSubmit view now1 now2 =
     (case view of (input, st) \<Rightarrow>
        if trim input = [] \<or> loading st then (input, st)
        else ([], sendMessage st input True now1 now2))"

subsection \<open>What a list of well-formed events says\<close>

text \<open>The chunk texts of a list of events, concatenated in order.\<close>

fun chunk_text :: "SSEEvent list \<Rightarrow> string" where
  "chunk_text [] = []"
| "chunk_text (Chunk d # es) = d @ chunk_text es"
| "chunk_text (e # es) = chunk_text es"

text \<open>The sources a list of events leaves buffered: those of its last \<open>Sources\<close> event.\<close>

fun buffered_sources :: "json option \<Rightarrow> SSEEvent list \<Rightarrow> json option" where
  "buffered_sources b [] = b"
| "buffered_sources b (Sources d # es) = buffered_sources (Some d) es"
| "buffered_sources b (e # es) = buffered_sources b es"

section \<open>Parser lemmas\<close>

lemma split_on_nonempty: "split_on sep s \<noteq> []"
  by (induction s) (auto split: list.splits)

lemma split_on_append:
  "split_on sep (a @ b) = butlast (split_on sep a) @ split_on sep (last (split_on sep a) @ b)"
proof (induction a)
  case Nil
  show ?case by simp
next
  case (Cons c a)
  show ?case
  proof (cases "c = sep")
    case True
    with Cons show ?thesis by (simp add: split_on_nonempty)
  next
    case False
    obtain l ls where a: "split_on sep a = l # ls"
      using split_on_nonempty [of sep a] by (cases "split_on sep a") auto
    show ?thesis
    proof (cases ls)
      case Nil
      with a False Cons show ?thesis by simp
    next
      case (Cons l' ls')
      with a False Cons.IH show ?thesis by simp
    qed
  qed
qed

lemma split_on_no_sep: "sep \<notin> set s \<Longrightarrow> split_on sep s = [s]"
  by (induction s) auto

lemma last_split_on_no_sep: "sep \<notin> set (last (split_on sep s))"
  by (induction s) (auto split: list.splits simp: split_on_nonempty)

lemma feed_all_lines:
  "nl \<notin> set b \<Longrightarrow> feed_all D b fs =
     (concat (map (handle_line D) (butlast (split_on nl (b @ concat fs)))),
      last (split_on nl (b @ concat fs)))"
proof (induction fs arbitrary: b)
  case Nil
  then show ?case by (simp add: split_on_no_sep)
next
  case (Cons f fs)
  let ?r = "last (split_on nl (b @ f))"
  have r: "nl \<notin> set ?r" by (rule last_split_on_no_sep)
  have sp: "split_on nl ((b @ f) @ concat fs) =
      butlast (split_on nl (b @ f)) @ split_on nl (?r @ concat fs)"
    by (rule split_on_append)
  have ne: "split_on nl (?r @ concat fs) \<noteq> []" by (rule split_on_nonempty)
  show ?case
    using Cons.IH [OF r] sp ne
    by (simp add: feed_def pop_def split_on_nonempty butlast_append)
qed

lemma parse_fragments_lines:
  "parse_fragments D fs =
     (concat (map (handle_line D) (butlast (split_on nl (concat fs)))),
      last (split_on nl (concat fs)))"
  using feed_all_lines [of "[]" D fs] by (simp add: parse_fragments_def)

section \<open>The frame parser does not see fragment boundaries\<close>

text \<open>
  C5: two sequences of text fragments with the same concatenation make the parser emit
  the same events in the same order (and leave the same residual buffer), wherever the
  fragment boundaries fall, also in the middle of a line.
\<close>

theorem parse_fragments_boundaries:
  "concat fs = concat gs \<Longrightarrow> parse_fragments D fs = parse_fragments D gs"
  by (simp add: parse_fragments_lines)

theorem parse_fragments_boundaries_witness:
  \<open>concat [''data: {"type":"chunk","data":"Hel'', ''lo"}'' @ [nl] @ ''data: {"type":"done"}'' @ [nl]]
     = concat [''data: {"type":"chunk","data":"Hello"}'' @ [nl] @ ''data: {"ty'', ''pe":"done"}'' @ [nl]]
   \<and> parse_fragments
        (\<lambda>s. if s = ''{"type":"done"}'' then Some (wire Done)
             else if s = ''{"type":"chunk","data":"Hello"}'' then Some (wire (Chunk ''Hello'')) else None)
        [''data: {"type":"chunk","data":"Hel'', ''lo"}'' @ [nl] @ ''data: {"type":"done"}'' @ [nl]]
     = parse_fragments
        (\<lambda>s. if s = ''{"type":"done"}'' then Some (wire Done)
             else if s = ''{"type":"chunk","data":"Hello"}'' then Some (wire (Chunk ''Hello'')) else None)
        [''data: {"type":"chunk","data":"Hello"}'' @ [nl] @ ''data: {"ty'', ''pe":"done"}'' @ [nl]]
   \<and> parse_fragments
        (\<lambda>s. if s = ''{"type":"done"}'' then Some (wire Done)
             else if s = ''{"type":"chunk","data":"Hello"}'' then Some (wire (Chunk ''Hello'')) else None)
        [''data: {"type":"chunk","data":"Hel'', ''lo"}'' @ [nl] @ ''data: {"type":"done"}'' @ [nl]]
     = ([wire (Chunk ''Hello''), wire Done], [])\<close>
proof -
  have eq: \<open>concat [''data: {"type":"chunk","data":"Hel'', ''lo"}'' @ [nl] @ ''data: {"type":"done"}'' @ [nl]]
     = concat [''data: {"type":"chunk","data":"Hello"}'' @ [nl] @ ''data: {"ty'', ''pe":"done"}'' @ [nl]]\<close>
    by simp
  have run: \<open>parse_fragments
        (\<lambda>s. if s = ''{"type":"done"}'' then Some (wire Done)
             else if s = ''{"type":"chunk","data":"Hello"}'' then Some (wire (Chunk ''Hello'')) else None)
        [''data: {"type":"chunk","data":"Hel'', ''lo"}'' @ [nl] @ ''data: {"type":"done"}'' @ [nl]]
     = ([wire (Chunk ''Hello''), wire Done], [])\<close>
    by (simp add: parse_fragments_def feed_def pop_def handle_line_def)
  show ?thesis
    using eq run parse_fragments_boundaries [OF eq] by blast
qed

section \<open>Transport lemmas\<close>

lemma split_on_line: "sep \<notin> set l \<Longrightarrow> split_on sep (l @ sep # b) = l # split_on sep b"
  by (induction l) auto

lemma last_split_on_terminated: "a = [] \<or> last a = sep \<Longrightarrow> last (split_on sep a) = []"
proof (cases "a = []")
  case True
  then show ?thesis by simp
next
  case False
  assume "a = [] \<or> last a = sep"
  with False obtain a' where a: "a = a' @ [sep]"
    by (metis append_butlast_last_id)
  have "split_on sep (a' @ [sep]) =
      butlast (split_on sep a') @ split_on sep (last (split_on sep a') @ [sep])"
    by (rule split_on_append)
  also have "split_on sep (last (split_on sep a') @ [sep]) = [last (split_on sep a'), []]"
    using split_on_line [OF last_split_on_no_sep, of sep a' "[]"] by simp
  finally show ?thesis using a by simp
qed

lemma split_on_after_terminated:
  "a = [] \<or> last a = sep \<Longrightarrow>
     split_on sep (a @ b) = butlast (split_on sep a) @ split_on sep b"
  using split_on_append [of sep a b] by (simp add: last_split_on_terminated)

lemma name_abort_error: "name abort_error = ''AbortError''"
  by (simp add: abort_error_def)

lemma cancel_silent: "fst (cancel D t) = []"
  by (simp add: cancel_def catch_handler_def name_abort_error)

lemma cancel_settled: "pc (snd (cancel D t)) = Settled"
  by (simp add: cancel_def catch_handler_def)

lemma resume_settled: "pc t = Settled \<Longrightarrow> resume D t x = ([], t)"
  by (cases x) auto

lemma step_settled: "pc t = Settled \<Longrightarrow> step D t x = ([], t)"
  by (cases x) (auto simp: cancel_def resume_settled)

lemma run_settled: "pc t = Settled \<Longrightarrow> run D t xs = ([], t)"
  by (induction xs) (auto simp: step_settled)

lemma run_append:
  "run D t (xs @ ys) =
     (fst (run D t xs) @ fst (run D (snd (run D t xs)) ys), snd (run D (snd (run D t xs)) ys))"
  by (induction xs arbitrary: t) (auto split: prod.splits)

lemma run_reads:
  "pc t = AwaitRead \<Longrightarrow>
     run D t (map (\<lambda>f. IO (ReadValue f)) fs) =
       (map OnEvent (fst (feed_all D (buffer t) fs)),
        t\<lparr>buffer := snd (feed_all D (buffer t) fs)\<rparr>)"
  by (induction fs arbitrary: t) (auto split: prod.splits)

section \<open>Cancelling a stream\<close>

text \<open>
  C7: the handle returned by \<^verbatim>\<open>streamChat\<close> makes no callback when it is called; called
  a second time it changes nothing; after it was called no answer of the platform and
  no further call of it makes the stream call \<^verbatim>\<open>onEvent\<close> or \<^verbatim>\<open>onError\<close>; and on a
  stream that has settled already (completed or failed) it is a no-op, with no callback
  then or later.
\<close>

theorem cancel_idempotent:
  "fst (cancel D t) = []
   \<and> cancel D (snd (cancel D t)) = ([], snd (cancel D t))
   \<and> (\<forall>xs. fst (run D (snd (cancel D t)) xs) = [])
   \<and> (pc t = Settled \<longrightarrow> cancel D t = ([], t) \<and> (\<forall>xs. fst (run D t xs) = []))"
  using step_settled [of "snd (cancel D t)" D Cancel] step_settled [of t D Cancel]
  by (simp add: cancel_silent cancel_settled run_settled)

theorem cancel_idempotent_witness:
  "pc (snd (run (\<lambda>s. None) (streamChat True) [IO (Response True True 200), IO ReadDone])) = Settled
   \<and> cancel (\<lambda>s. None) (snd (run (\<lambda>s. None) (streamChat True) [IO (Response True True 200), IO ReadDone]))
       = ([], snd (run (\<lambda>s. None) (streamChat True) [IO (Response True True 200), IO ReadDone]))"
proof -
  have h: "pc (snd (run (\<lambda>s. None) (streamChat True) [IO (Response True True 200), IO ReadDone])) = Settled"
    by (simp add: streamChat_def)
  from h cancel_idempotent [of "\<lambda>s. None"
      "snd (run (\<lambda>s. None) (streamChat True) [IO (Response True True 200), IO ReadDone])"]
  show ?thesis by blast
qed

section \<open>Malformed lines\<close>

text \<open>
  C8, as amended: a complete line that starts with \<^verbatim>\<open>data: \<close> and whose remainder
  \<^verbatim>\<open>JSON.parse\<close> rejects is dropped. Reading a fragment that contains such a line (after
  the complete lines \<open>pre\<close>, before \<open>rest\<close>) makes exactly the callbacks, and leaves
  exactly the state, of reading the text without that line: no \<^verbatim>\<open>onEvent\<close> for it, never
  an \<^verbatim>\<open>onError\<close>, the stream still reading, the lines after it parsed as usual. In the
  scenario of the witness the line \<^verbatim>\<open>data: not-json\<close> is followed by the done line, whose
  event reaches the session and finishes the assistant message.
\<close>

theorem malformed_line_discarded:
  assumes "pc t = AwaitRead" and "buffer t @ fragment = pre @ line @ nl # rest"
    and "pre = [] \<or> last pre = nl" and "nl \<notin> set line"
    and "take 6 line = ''data: ''" and "D (drop 6 line) = None"
  shows "resume D t (ReadValue fragment) = resume D (t\<lparr>buffer := []\<rparr>) (ReadValue (pre @ rest))
    \<and> pc (snd (resume D t (ReadValue fragment))) = AwaitRead
    \<and> (\<forall>e. OnError e \<notin> set (fst (resume D t (ReadValue fragment))))"
proof -
  have s1: "split_on nl (pre @ line @ nl # rest) =
      butlast (split_on nl pre) @ line # split_on nl rest"
    using assms(3,4) by (simp add: split_on_after_terminated split_on_line)
  have s2: "split_on nl (pre @ rest) = butlast (split_on nl pre) @ split_on nl rest"
    using assms(3) by (simp add: split_on_after_terminated)
  have h: "handle_line D line = []"
    using assms(5,6) by (simp add: handle_line_def)
  have "feed D (buffer t) fragment = feed D [] (pre @ rest)"
    using assms(2) s1 s2 h
    by (simp add: feed_def pop_def split_on_nonempty butlast_append)
  with assms(1) show ?thesis by (auto split: prod.splits)
qed

theorem malformed_line_discarded_witness:
  \<open>pc \<lparr>pc = AwaitRead, buffer = [], hasOnError = True\<rparr> = AwaitRead
   \<and> buffer \<lparr>pc = AwaitRead, buffer = [], hasOnError = True\<rparr>
        @ (''data: not-json'' @ [nl] @ ''data: {"type":"done"}'' @ [nl])
       = [] @ ''data: not-json'' @ nl # (''data: {"type":"done"}'' @ [nl])
   \<and> nl \<notin> set ''data: not-json''
   \<and> take 6 ''data: not-json'' = ''data: ''
   \<and> (\<lambda>s. if s = ''{"type":"done"}'' then Some (wire Done) else None) (drop 6 ''data: not-json'') = None
   \<and> resume (\<lambda>s. if s = ''{"type":"done"}'' then Some (wire Done) else None)
        \<lparr>pc = AwaitRead, buffer = [], hasOnError = True\<rparr>
        (ReadValue (''data: not-json'' @ [nl] @ ''data: {"type":"done"}'' @ [nl]))
       = ([OnEvent (wire Done)], \<lparr>pc = AwaitRead, buffer = [], hasOnError = True\<rparr>)
   \<and> deliver (\<lambda>s. if s = ''{"type":"done"}'' then Some (wire Done) else None)
        (deliver (\<lambda>s. if s = ''{"type":"done"}'' then Some (wire Done) else None)
           (sendMessage (useChat (Some ''kb'')) ''q'' True 5 7) 0 (Response True True 200))
        0 (ReadValue (''data: not-json'' @ [nl] @ ''data: {"type":"done"}'' @ [nl]))
       = \<lparr>kbId = Some ''kb'',
          messages =
            [\<lparr>msg_id = ''user-5'', role = User, content = ''q'', sources = None,
              isStreaming = None\<rparr>,
             \<lparr>msg_id = ''assistant-7'', role = Assistant, content = [], sources = None,
              isStreaming = Some False\<rparr>],
          loading = False, error = None, abortRef = Some 0,
          streams =
            [\<lparr>assistantId = ''assistant-7'', sources_var = None,
              conn = \<lparr>pc = AwaitRead, buffer = [], hasOnError = True\<rparr>\<rparr>]\<rparr>\<close>
proof -
  let ?D = \<open>\<lambda>s. if s = ''{"type":"done"}'' then Some (wire Done) else None\<close>
  let ?t = "\<lparr>pc = AwaitRead, buffer = [], hasOnError = True\<rparr>"
  have session: \<open>deliver ?D
        (deliver ?D (sendMessage (useChat (Some ''kb'')) ''q'' True 5 7) 0 (Response True True 200))
        0 (ReadValue (''data: not-json'' @ [nl] @ ''data: {"type":"done"}'' @ [nl]))
       = \<lparr>kbId = Some ''kb'',
          messages =
            [\<lparr>msg_id = ''user-5'', role = User, content = ''q'', sources = None,
              isStreaming = None\<rparr>,
             \<lparr>msg_id = ''assistant-7'', role = Assistant, content = [], sources = None,
              isStreaming = Some False\<rparr>],
          loading = False, error = None, abortRef = Some 0,
          streams =
            [\<lparr>assistantId = ''assistant-7'', sources_var = None,
              conn = \<lparr>pc = AwaitRead, buffer = [], hasOnError = True\<rparr>\<rparr>]\<rparr>\<close>
    by (simp add: deliver_def conn_step_def call_def onEvent_def field_def text_of_def wire.simps
          feed_def pop_def handle_line_def streamChat_def
          sendMessage_def useChat_def no_kb_def trim_def is_space_def Let_def dec.simps digit_def)
  have h1: "pc ?t = AwaitRead" by simp
  have h2: \<open>buffer ?t @ (''data: not-json'' @ [nl] @ ''data: {"type":"done"}'' @ [nl])
       = [] @ ''data: not-json'' @ nl # (''data: {"type":"done"}'' @ [nl])\<close> by simp
  have h3: "([]::string) = [] \<or> last ([]::string) = nl" by simp
  have h4: "nl \<notin> set ''data: not-json''" by simp
  have h5: "take 6 ''data: not-json'' = ''data: ''" by simp
  have h6: "?D (drop 6 ''data: not-json'') = None" by simp
  have good: \<open>resume ?D (?t\<lparr>buffer := []\<rparr>) (ReadValue ([] @ (''data: {"type":"done"}'' @ [nl])))
      = ([OnEvent (wire Done)], ?t)\<close>
    by (simp add: feed_def pop_def handle_line_def)
  have same: \<open>resume ?D ?t (ReadValue (''data: not-json'' @ [nl] @ ''data: {"type":"done"}'' @ [nl]))
      = resume ?D (?t\<lparr>buffer := []\<rparr>) (ReadValue ([] @ (''data: {"type":"done"}'' @ [nl])))\<close>
    using malformed_line_discarded [of ?t _ "[]" "''data: not-json''" _ ?D, OF h1 h2 h3 h4 h5 h6]
    by (rule conjunct1)
  have \<open>resume ?D ?t (ReadValue (''data: not-json'' @ [nl] @ ''data: {"type":"done"}'' @ [nl]))
      = ([OnEvent (wire Done)], ?t)\<close>
    using same good by (rule trans)
  with h1 h2 h4 h5 h6 session show ?thesis by blast
qed

text \<open>
  The claim as written fails for a remainder that parses but is no frame: nothing
  checks the value, so \<^verbatim>\<open>onEvent\<close> is called with it. For \<^verbatim>\<open>data: 42\<close> the call changes
  nothing; for \<^verbatim>\<open>data: {"type":"chunk"}\<close> the session appends the text \<^verbatim>\<open>undefined\<close> to
  the assistant message.
\<close>

theorem non_frame_reaches_onEvent:
  \<open>\<not> is_SSEEvent (JNum ''42'')
   \<and> \<not> is_SSEEvent (JObj [(''type'', JStr ''chunk'')])
   \<and> resume
        (\<lambda>s. if s = ''42'' then Some (JNum ''42'')
             else if s = ''{"type":"chunk"}'' then Some (JObj [(''type'', JStr ''chunk'')])
             else None)
        \<lparr>pc = AwaitRead, buffer = [], hasOnError = True\<rparr>
        (ReadValue (''data: 42'' @ [nl] @ ''data: {"type":"chunk"}'' @ [nl]))
       = ([OnEvent (JNum ''42''), OnEvent (JObj [(''type'', JStr ''chunk'')])],
          \<lparr>pc = AwaitRead, buffer = [], hasOnError = True\<rparr>)
   \<and> messages
        (deliver
          (\<lambda>s. if s = ''42'' then Some (JNum ''42'')
               else if s = ''{"type":"chunk"}'' then Some (JObj [(''type'', JStr ''chunk'')])
               else None)
          (deliver
            (\<lambda>s. if s = ''42'' then Some (JNum ''42'')
                 else if s = ''{"type":"chunk"}'' then Some (JObj [(''type'', JStr ''chunk'')])
                 else None)
            (sendMessage (useChat (Some ''kb'')) ''q'' True 5 7) 0 (Response True True 200))
          0 (ReadValue (''data: 42'' @ [nl] @ ''data: {"type":"chunk"}'' @ [nl])))
       = [\<lparr>msg_id = ''user-5'', role = User, content = ''q'', sources = None,
           isStreaming = None\<rparr>,
          \<lparr>msg_id = ''assistant-7'', role = Assistant, content = ''undefined'', sources = None,
           isStreaming = Some True\<rparr>]\<close>
  by (simp add: is_SSEEvent_def is_string_def deliver_def conn_step_def call_def onEvent_def field_def
        text_of_def feed_def pop_def handle_line_def streamChat_def
        sendMessage_def useChat_def no_kb_def trim_def is_space_def Let_def dec.simps digit_def)

section \<open>The end of the body\<close>

text \<open>
  C10: when the body ends, the text in the buffer is never looked at. For a body whose
  fragments concatenate to \<open>body @ trailing\<close>, with \<open>body\<close> empty or ending in a
  newline and no newline in \<open>trailing\<close>, the callbacks of the whole stream are those of
  the complete lines of \<open>body\<close>; \<open>trailing\<close> is still in the buffer when the chain has
  settled. A last \<^verbatim>\<open>data: {"type":"done"}\<close> without its newline gives no callback.
\<close>

theorem residual_buffer_discarded:
  assumes "nl \<notin> set trailing" and "concat fs = body @ trailing"
    and "body = [] \<or> last body = nl"
  shows "run D (streamChat h)
           (IO (Response True True status) # map (\<lambda>f. IO (ReadValue f)) fs @ [IO ReadDone])
     = (map OnEvent (concat (map (handle_line D) (butlast (split_on nl body)))),
        \<lparr>pc = Settled, buffer = trailing, hasOnError = h\<rparr>)"
proof -
  let ?t = "\<lparr>pc = AwaitRead, buffer = [], hasOnError = h\<rparr>"
  have sp: "split_on nl (concat fs) = butlast (split_on nl body) @ [trailing]"
    using assms split_on_after_terminated [of body nl trailing] by (simp add: split_on_no_sep)
  have fa: "feed_all D [] fs =
      (concat (map (handle_line D) (butlast (split_on nl body))), trailing)"
    using feed_all_lines [of "[]" D fs] sp by simp
  have rd: "run D ?t (map (\<lambda>f. IO (ReadValue f)) fs) =
      (map OnEvent (concat (map (handle_line D) (butlast (split_on nl body)))),
       ?t\<lparr>buffer := trailing\<rparr>)"
    using run_reads [of ?t D fs] fa by simp
  show ?thesis
    by (simp add: streamChat_def run_append rd)
qed

theorem residual_buffer_discarded_witness:
  \<open>nl \<notin> set ''data: {"type":"done"}''
   \<and> concat [''data: {"type":"done"}''] = [] @ ''data: {"type":"done"}''
   \<and> run (\<lambda>s. if s = ''{"type":"done"}'' then Some (wire Done) else None) (streamChat True)
        [IO (Response True True 200), IO (ReadValue ''data: {"type":"done"}''), IO ReadDone]
       = ([], \<lparr>pc = Settled, buffer = ''data: {"type":"done"}'', hasOnError = True\<rparr>)
   \<and> run (\<lambda>s. if s = ''{"type":"done"}'' then Some (wire Done) else None) (streamChat True)
        [IO (Response True True 200), IO (ReadValue (''data: {"type":"done"}'' @ [nl])), IO ReadDone]
       = ([OnEvent (wire Done)], \<lparr>pc = Settled, buffer = [], hasOnError = True\<rparr>)\<close>
proof -
  let ?D = \<open>\<lambda>s. if s = ''{"type":"done"}'' then Some (wire Done) else None\<close>
  have h1: \<open>nl \<notin> set ''data: {"type":"done"}''\<close> by simp
  have h2: \<open>concat [''data: {"type":"done"}''] = [] @ ''data: {"type":"done"}''\<close> by simp
  have h3: "([]::string) = [] \<or> last ([]::string) = nl" by simp
  have with_newline: \<open>run ?D (streamChat True)
        [IO (Response True True 200), IO (ReadValue (''data: {"type":"done"}'' @ [nl])), IO ReadDone]
       = ([OnEvent (wire Done)], \<lparr>pc = Settled, buffer = [], hasOnError = True\<rparr>)\<close>
    by (simp add: streamChat_def feed_def pop_def handle_line_def)
  show ?thesis
    using residual_buffer_discarded [OF h1 h2 h3, of ?D True 200] h1 h2 with_newline
    by simp
qed

section \<open>Session lemmas\<close>

lemma field_wire:
  "field (wire (Sources d)) ''type'' = Some (JStr ''sources'')"
  "field (wire (Sources d)) ''data'' = Some d"
  "field (wire (Chunk c)) ''type'' = Some (JStr ''chunk'')"
  "field (wire (Chunk c)) ''data'' = Some (JStr c)"
  "field (wire Done) ''type'' = Some (JStr ''done'')"
  by (simp_all add: field_def wire.simps)

lemma onEvent_Sources:
  "i < length (streams st) \<Longrightarrow>
     onEvent i (wire (Sources d)) st =
       st\<lparr>streams := (streams st)[i := (streams st ! i)\<lparr>sources_var := Some d\<rparr>]\<rparr>"
  by (simp add: onEvent_def field_def wire.simps Let_def)

lemma onEvent_Chunk:
  "i < length (streams st) \<Longrightarrow>
     onEvent i (wire (Chunk c)) st =
       st\<lparr>messages :=
            map (\<lambda>m. if msg_id m = assistantId (streams st ! i)
                      then m\<lparr>content := content m @ c\<rparr> else m) (messages st)\<rparr>"
  by (simp add: onEvent_def field_def text_of_def wire.simps Let_def)

lemma onEvent_Done:
  "i < length (streams st) \<Longrightarrow>
     onEvent i (wire Done) st =
       st\<lparr>messages :=
            map (\<lambda>m. if msg_id m = assistantId (streams st ! i)
                      then m\<lparr>isStreaming := Some False,
                             sources := sources_var (streams st ! i)\<rparr> else m) (messages st),
          loading := False\<rparr>"
  by (simp add: onEvent_def field_def wire.simps Let_def)

lemma onEvents_open:
  "i < length (streams st) \<Longrightarrow> Done \<notin> set es \<Longrightarrow>
     foldl (\<lambda>s e. onEvent i (wire e) s) st es =
       st\<lparr>messages :=
            map (\<lambda>m. if msg_id m = assistantId (streams st ! i)
                      then m\<lparr>content := content m @ chunk_text es\<rparr> else m) (messages st),
          streams :=
            (streams st)[i := (streams st ! i)
               \<lparr>sources_var := buffered_sources (sources_var (streams st ! i)) es\<rparr>]\<rparr>"
proof (induction es arbitrary: st)
  case Nil
  have "map (\<lambda>m. if msg_id m = assistantId (streams st ! i)
                 then m\<lparr>content := content m @ chunk_text []\<rparr> else m) (messages st) = messages st"
    by (rule map_idI) simp
  then show ?case by simp
next
  case (Cons e es)
  show ?case
  proof (cases e)
    case (Sources d)
    with Cons show ?thesis by (simp add: onEvent_Sources)
  next
    case (Chunk d)
    with Cons show ?thesis
      by (simp add: onEvent_Chunk comp_def if_distrib [of "\<lambda>m. msg_id m"] cong: if_cong)
  next
    case Done
    with Cons.prems show ?thesis by simp
  qed
qed

lemma changeKb_streams: "streams (changeKb st k h) = streams st"
  by (simp add: changeKb_def split: sum.splits)

lemma onChunks:
  assumes i: "i < length (streams st)"
  shows "messages (foldl (\<lambda>s c. onEvent i (wire (Chunk c)) s) st cs) =
       map (\<lambda>m. if msg_id m = assistantId (streams st ! i)
                 then m\<lparr>content := content m @ concat cs\<rparr> else m) (messages st)"
proof -
  have f: "foldl (\<lambda>s c. onEvent i (wire (Chunk c)) s) st cs =
      foldl (\<lambda>s e. onEvent i (wire e) s) st (map Chunk cs)"
    by (simp add: foldl_map)
  have d: "Done \<notin> set (map Chunk cs)" by auto
  have c: "chunk_text (map Chunk cs) = concat cs" by (induction cs) auto
  show ?thesis by (simp add: f onEvents_open [OF i d] c)
qed

lemma map_other_ids:
  "a \<notin> msg_id ` set ms \<Longrightarrow> map (\<lambda>m. if msg_id m = a then f m else m) ms = ms"
  by (induction ms) auto

lemma deliver_settled:
  "i < length (streams st) \<Longrightarrow> pc (conn (streams st ! i)) = Settled \<Longrightarrow> deliver D st i x = st"
  by (simp add: deliver_def conn_step_def resume_settled)

section \<open>Sending while a stream is in flight\<close>

text \<open>
  C1, as amended: the single-flight guard is in the form, not in the hook. While
  \<^verbatim>\<open>loading\<close> is set, \<^verbatim>\<open>handleSubmit\<close> changes neither the input nor the session, for any
  input. \<^verbatim>\<open>sendMessage\<close> itself returns without effect exactly when no knowledge base
  is selected or the trimmed text is empty; with any other text it appends two
  messages, a stream in flight or not.
\<close>

theorem handleSubmit_single_flight:
  "(loading st \<longrightarrow> handleSubmit (inp, st) now1 now2 = (inp, st))
   \<and> (sendMessage st text True now1 now2 = st \<longleftrightarrow> no_kb (kbId st) \<or> trim text = [])
   \<and> (\<not> no_kb (kbId st) \<and> trim text \<noteq> [] \<longrightarrow>
        length (messages (sendMessage st text True now1 now2)) = length (messages st) + 2)"
proof -
  have len: "\<not> no_kb (kbId st) \<and> trim text \<noteq> [] \<longrightarrow>
        length (messages (sendMessage st text True now1 now2)) = length (messages st) + 2"
    by (simp add: sendMessage_def Let_def)
  have "sendMessage st text True now1 now2 = st \<longleftrightarrow> no_kb (kbId st) \<or> trim text = []"
  proof
    assume eq: "sendMessage st text True now1 now2 = st"
    show "no_kb (kbId st) \<or> trim text = []"
    proof (rule ccontr)
      assume "\<not> (no_kb (kbId st) \<or> trim text = [])"
      with len have "length (messages (sendMessage st text True now1 now2)) = length (messages st) + 2"
        by simp
      with eq show False by simp
    qed
  next
    assume "no_kb (kbId st) \<or> trim text = []"
    then show "sendMessage st text True now1 now2 = st"
      by (auto simp: sendMessage_def)
  qed
  with len show ?thesis by (simp add: handleSubmit_def)
qed

theorem handleSubmit_single_flight_witness:
  "loading (sendMessage (useChat (Some ''kb'')) ''a'' True 1 1)
   \<and> handleSubmit (''b'', sendMessage (useChat (Some ''kb'')) ''a'' True 1 1) 2 2
       = (''b'', sendMessage (useChat (Some ''kb'')) ''a'' True 1 1)
   \<and> no_kb (kbId (useChat None))
   \<and> sendMessage (useChat None) ''a'' True 1 1 = useChat None
   \<and> \<not> no_kb (kbId (useChat (Some ''kb''))) \<and> trim ''a'' \<noteq> []
   \<and> length (messages (sendMessage (useChat (Some ''kb'')) ''a'' True 1 1)) = 2
   \<and> trim [CHR 0x20, CHR 0xA0, CHR 0x09] = []
   \<and> sendMessage (useChat (Some ''kb'')) [CHR 0x20, CHR 0xA0, CHR 0x09] True 1 1
       = useChat (Some ''kb'')"
proof -
  have b: "trim [CHR 0x20, CHR 0xA0, CHR 0x09] = []"
    by (simp add: trim_def is_space_def)
  have l: "loading (sendMessage (useChat (Some ''kb'')) ''a'' True 1 1)"
    by (simp add: sendMessage_def useChat_def no_kb_def trim_def is_space_def Let_def)
  have n: "no_kb (kbId (useChat None))"
    by (simp add: useChat_def no_kb_def)
  have k: "\<not> no_kb (kbId (useChat (Some ''kb'')))" "trim ''a'' \<noteq> []"
    by (simp_all add: useChat_def no_kb_def trim_def is_space_def)
  have e: "length (messages (useChat (Some ''kb''))) + 2 = 2"
    by (simp add: useChat_def)
  from l n k e b
    handleSubmit_single_flight [of "sendMessage (useChat (Some ''kb'')) ''a'' True 1 1" "''b''" 2 2]
    handleSubmit_single_flight [of "useChat None" _ 1 1 "''a''"]
    handleSubmit_single_flight [of "useChat (Some ''kb'')" _ 1 1 "''a''"]
    handleSubmit_single_flight [of "useChat (Some ''kb'')" _ 1 1 "[CHR 0x20, CHR 0xA0, CHR 0x09]"]
  show ?thesis by metis
qed

text \<open>
  The claim as written fails on \<^verbatim>\<open>sendMessage\<close>: with the stream of a first message in
  flight, a second call appends two more messages.
\<close>

theorem sendMessage_in_flight_appends:
  "loading (sendMessage (useChat (Some ''kb'')) ''a'' True 1 1)
   \<and> abortRef (sendMessage (useChat (Some ''kb'')) ''a'' True 1 1) = Some 0
   \<and> length (messages (sendMessage (useChat (Some ''kb'')) ''a'' True 1 1)) = 2
   \<and> length (messages (sendMessage (sendMessage (useChat (Some ''kb'')) ''a'' True 1 1) ''b'' True 2 2)) = 4"
  by (simp add: sendMessage_def useChat_def no_kb_def trim_def is_space_def Let_def)

section \<open>A transport error\<close>

text \<open>
  C2, at a failing input: a message is sent, the stream delivers the chunk \<^verbatim>\<open>Par\<close>, then
  the read is rejected with a network error. The error text is recorded and \<^verbatim>\<open>loading\<close>
  is cleared, the partial content is kept, but the assistant message is still flagged
  as streaming and the handle is still in \<^verbatim>\<open>abortRef\<close>.
\<close>

theorem onError_leaves_streaming:
  \<open>deliver (\<lambda>s. if s = ''{"type":"chunk","data":"Par"}'' then Some (wire (Chunk ''Par'')) else None)
      (deliver (\<lambda>s. if s = ''{"type":"chunk","data":"Par"}'' then Some (wire (Chunk ''Par'')) else None)
        (deliver (\<lambda>s. if s = ''{"type":"chunk","data":"Par"}'' then Some (wire (Chunk ''Par'')) else None)
          (sendMessage (useChat (Some ''kb'')) ''hi'' True 1 2)
          0 (Response True True 200))
        0 (ReadValue (''data: {"type":"chunk","data":"Par"}'' @ [nl])))
      0 (Rejected \<lparr>name = ''TypeError'', message = ''network error''\<rparr>)
   = \<lparr>kbId = Some ''kb'',
      messages =
        [\<lparr>msg_id = ''user-1'', role = User, content = ''hi'', sources = None,
          isStreaming = None\<rparr>,
         \<lparr>msg_id = ''assistant-2'', role = Assistant, content = ''Par'', sources = None,
          isStreaming = Some True\<rparr>],
      loading = False, error = Some ''network error'', abortRef = Some 0,
      streams =
        [\<lparr>assistantId = ''assistant-2'', sources_var = None,
          conn = \<lparr>pc = Settled, buffer = [], hasOnError = True\<rparr>\<rparr>]\<rparr>\<close>
  by (simp add: deliver_def conn_step_def call_def onEvent_def field_def text_of_def wire.simps onError_def catch_handler_def
        feed_def pop_def handle_line_def streamChat_def
        sendMessage_def useChat_def no_kb_def trim_def is_space_def Let_def dec.simps digit_def)

section \<open>A stream that ends with a done event\<close>

text \<open>
  C3, as amended: an accepted \<^verbatim>\<open>sendMessage(text)\<close> (a knowledge base is selected, the
  text is not blank) whose stream then delivers source and chunk events \<open>es\<close> and a done
  event ends with two new messages at the end of the sequence: the user message, whose
  content is the trimmed text, and the assistant message, whose content is the chunk
  texts of \<open>es\<close> concatenated in order, no longer streaming, with the sources of the
  last sources event attached (none if there was none); \<^verbatim>\<open>loading\<close> is cleared.
\<close>

theorem sendMessage_stream_done:
  assumes "\<not> no_kb (kbId st)" and "trim text \<noteq> []" and "Done \<notin> set es"
  shows "let n = length (messages st);
             st' = foldl (\<lambda>s e. onEvent (length (streams st)) (wire e) s)
                     (sendMessage st text True now1 now2) (es @ [Done])
         in length (messages st') = n + 2
          \<and> messages st' ! n =
              \<lparr>msg_id = ''user-'' @ dec now1, role = User, content = trim text,
               sources = None, isStreaming = None\<rparr>
          \<and> messages st' ! (n + 1) =
              \<lparr>msg_id = ''assistant-'' @ dec now2, role = Assistant, content = chunk_text es,
               sources = buffered_sources None es, isStreaming = Some False\<rparr>
          \<and> loading st' = False"
proof -
  let ?i = "length (streams st)"
  let ?s1 = "sendMessage st text True now1 now2"
  have i: "?i < length (streams ?s1)"
    using assms(1,2) by (simp add: sendMessage_def Let_def)
  have aid: "assistantId (streams ?s1 ! ?i) = ''assistant-'' @ dec now2"
    and sv: "sources_var (streams ?s1 ! ?i) = None"
    using assms(1,2) by (simp_all add: sendMessage_def Let_def)
  have ms: "messages ?s1 = messages st @
      [\<lparr>msg_id = ''user-'' @ dec now1, role = User, content = trim text,
               sources = None, isStreaming = None\<rparr>,
       \<lparr>msg_id = ''assistant-'' @ dec now2, role = Assistant, content = [],
               sources = None, isStreaming = Some True\<rparr>]"
    using assms(1,2) by (simp add: sendMessage_def Let_def)
  define s2 where "s2 = foldl (\<lambda>s e. onEvent ?i (wire e) s) ?s1 es"
  have s2: "s2 = ?s1\<lparr>messages :=
            map (\<lambda>m. if msg_id m = ''assistant-'' @ dec now2
                      then m\<lparr>content := content m @ chunk_text es\<rparr> else m) (messages ?s1),
          streams :=
            (streams ?s1)[?i := (streams ?s1 ! ?i)\<lparr>sources_var := buffered_sources None es\<rparr>]\<rparr>"
    unfolding s2_def using onEvents_open [OF i assms(3)] by (simp add: aid sv)
  have fin: "foldl (\<lambda>s e. onEvent ?i (wire e) s) ?s1 (es @ [Done]) = onEvent ?i (wire Done) s2"
    by (simp add: s2_def)
  have i2: "?i < length (streams s2)"
    using i by (simp add: s2)
  have m: "messages (onEvent ?i (wire Done) s2) =
      map (\<lambda>m. if msg_id m = ''assistant-'' @ dec now2
                then m\<lparr>isStreaming := Some False, sources := buffered_sources None es\<rparr> else m)
        (map (\<lambda>m. if msg_id m = ''assistant-'' @ dec now2
                      then m\<lparr>content := content m @ chunk_text es\<rparr> else m) (messages ?s1))"
    and l: "loading (onEvent ?i (wire Done) s2) = False"
    using i2 by (simp_all add: onEvent_Done s2 aid)
  show ?thesis
    unfolding Let_def fin by (simp add: m l ms nth_append)
qed

theorem sendMessage_stream_done_witness:
  "\<not> no_kb (kbId (useChat (Some ''kb''))) \<and> trim (CHR 0xA0 # ''What is X? '') \<noteq> []
   \<and> Done \<notin> set [Chunk ''X '', Chunk ''is '', Chunk ''Y'']
   \<and> messages (foldl (\<lambda>s e. onEvent 0 (wire e) s)
        (sendMessage (useChat (Some ''kb'')) (CHR 0xA0 # ''What is X? '') True 5 7)
        [Chunk ''X '', Chunk ''is '', Chunk ''Y'', Done]) ! 0
      = \<lparr>msg_id = ''user-5'', role = User, content = ''What is X?'',
         sources = None, isStreaming = None\<rparr>
   \<and> messages (foldl (\<lambda>s e. onEvent 0 (wire e) s)
        (sendMessage (useChat (Some ''kb'')) (CHR 0xA0 # ''What is X? '') True 5 7)
        [Chunk ''X '', Chunk ''is '', Chunk ''Y'', Done]) ! 1
      = \<lparr>msg_id = ''assistant-7'', role = Assistant, content = ''X is Y'',
         sources = None, isStreaming = Some False\<rparr>"
proof -
  have h1: "\<not> no_kb (kbId (useChat (Some ''kb'')))"
    by (simp add: useChat_def no_kb_def)
  have t: "trim (CHR 0xA0 # ''What is X? '') = ''What is X?''"
    by (simp add: trim_def is_space_def)
  have h2: "trim (CHR 0xA0 # ''What is X? '') \<noteq> []"
    by (simp add: t)
  have h3: "Done \<notin> set [Chunk ''X '', Chunk ''is '', Chunk ''Y'']"
    by simp
  have s: "length (streams (useChat (Some ''kb''))) = 0"
    "length (messages (useChat (Some ''kb''))) = 0"
    by (simp_all add: useChat_def)
  have d: "dec 7 = ''7''" "dec 5 = ''5''"
    by (simp_all add: dec.simps digit_def)
  have "messages (foldl (\<lambda>s e. onEvent 0 (wire e) s)
        (sendMessage (useChat (Some ''kb'')) (CHR 0xA0 # ''What is X? '') True 5 7)
        ([Chunk ''X '', Chunk ''is '', Chunk ''Y''] @ [Done])) ! 0
      = \<lparr>msg_id = ''user-'' @ dec 5, role = User,
         content = trim (CHR 0xA0 # ''What is X? ''), sources = None, isStreaming = None\<rparr>
    \<and> messages (foldl (\<lambda>s e. onEvent 0 (wire e) s)
        (sendMessage (useChat (Some ''kb'')) (CHR 0xA0 # ''What is X? '') True 5 7)
        ([Chunk ''X '', Chunk ''is '', Chunk ''Y''] @ [Done])) ! (0 + 1)
      = \<lparr>msg_id = ''assistant-'' @ dec 7, role = Assistant,
         content = chunk_text [Chunk ''X '', Chunk ''is '', Chunk ''Y''],
         sources = buffered_sources None [Chunk ''X '', Chunk ''is '', Chunk ''Y''],
         isStreaming = Some False\<rparr>"
    using sendMessage_stream_done [OF h1 h2 h3, of 5 7] unfolding Let_def s by blast
  then show ?thesis
    using h1 h2 h3 by (simp add: d t)
qed

text \<open>
  The claim as written fails in three places. The user message holds the trimmed text,
  not the text; after the done event the handle is still in \<^verbatim>\<open>abortRef\<close>; and when the
  body ends without a done event nothing is finished: the assistant message is still
  streaming and \<^verbatim>\<open>loading\<close> is still set.
\<close>

theorem sendMessage_stream_done_counterexample:
  \<open>content (messages (foldl (\<lambda>s e. onEvent 0 (wire e) s)
        (sendMessage (useChat (Some ''kb'')) '' hi '' True 1 2) [Chunk ''Y'', Done]) ! 0) \<noteq> '' hi ''
   \<and> abortRef (foldl (\<lambda>s e. onEvent 0 (wire e) s)
        (sendMessage (useChat (Some ''kb'')) '' hi '' True 1 2) [Chunk ''Y'', Done]) \<noteq> None
   \<and> isStreaming (messages
        (deliver (\<lambda>s. if s = ''{"type":"chunk","data":"Y"}'' then Some (wire (Chunk ''Y'')) else None)
          (deliver (\<lambda>s. if s = ''{"type":"chunk","data":"Y"}'' then Some (wire (Chunk ''Y'')) else None)
            (deliver (\<lambda>s. if s = ''{"type":"chunk","data":"Y"}'' then Some (wire (Chunk ''Y'')) else None)
              (sendMessage (useChat (Some ''kb'')) ''hi'' True 1 2)
              0 (Response True True 200))
            0 (ReadValue (''data: {"type":"chunk","data":"Y"}'' @ [nl])))
          0 ReadDone) ! 1) = Some True
   \<and> loading
        (deliver (\<lambda>s. if s = ''{"type":"chunk","data":"Y"}'' then Some (wire (Chunk ''Y'')) else None)
          (deliver (\<lambda>s. if s = ''{"type":"chunk","data":"Y"}'' then Some (wire (Chunk ''Y'')) else None)
            (deliver (\<lambda>s. if s = ''{"type":"chunk","data":"Y"}'' then Some (wire (Chunk ''Y'')) else None)
              (sendMessage (useChat (Some ''kb'')) ''hi'' True 1 2)
              0 (Response True True 200))
            0 (ReadValue (''data: {"type":"chunk","data":"Y"}'' @ [nl])))
          0 ReadDone)\<close>
  by (simp add: deliver_def conn_step_def call_def onEvent_def field_def text_of_def wire.simps onError_def catch_handler_def
        feed_def pop_def handle_line_def streamChat_def
        sendMessage_def useChat_def no_kb_def trim_def is_space_def Let_def dec.simps digit_def)

section \<open>Chunks of a stream that was started before the knowledge base changed\<close>

text \<open>
  C4, as amended: there is no generation token; a chunk is applied to every message
  whose id is the id of the assistant message of its stream. After an accepted
  \<^verbatim>\<open>sendMessage\<close>, a change of knowledge base and the reload of the history, the chunks
  of the old stream leave the length of the new sequence and every message with another
  id unchanged; when no reloaded message has that id, the sequence is unchanged.
\<close>

theorem stale_chunks_other_ids:
  assumes "\<not> no_kb (kbId st)" and "trim text \<noteq> []"
  shows "let st2 = changeKb (sendMessage st text True now1 now2) k (Inr h);
             st3 = foldl (\<lambda>s c. onEvent (length (streams st)) (wire (Chunk c)) s) st2 cs
         in length (messages st3) = length (messages st2)
          \<and> (\<forall>j < length (messages st2).
               msg_id (messages st2 ! j) \<noteq> ''assistant-'' @ dec now2 \<longrightarrow>
               messages st3 ! j = messages st2 ! j)
          \<and> (''assistant-'' @ dec now2 \<notin> msg_id ` set (messages st2) \<longrightarrow>
               messages st3 = messages st2)"
proof -
  let ?i = "length (streams st)"
  let ?s1 = "sendMessage st text True now1 now2"
  let ?s2 = "changeKb ?s1 k (Inr h)"
  have i: "?i < length (streams ?s2)"
    using assms by (simp add: changeKb_streams sendMessage_def Let_def)
  have aid: "assistantId (streams ?s2 ! ?i) = ''assistant-'' @ dec now2"
    using assms by (simp add: changeKb_streams sendMessage_def Let_def)
  have m: "messages (foldl (\<lambda>s c. onEvent ?i (wire (Chunk c)) s) ?s2 cs) =
       map (\<lambda>m. if msg_id m = ''assistant-'' @ dec now2
                 then m\<lparr>content := content m @ concat cs\<rparr> else m) (messages ?s2)"
    using onChunks [OF i] aid by simp
  have "''assistant-'' @ dec now2 \<notin> msg_id ` set (messages ?s2) \<longrightarrow>
      map (\<lambda>m. if msg_id m = ''assistant-'' @ dec now2
                 then m\<lparr>content := content m @ concat cs\<rparr> else m) (messages ?s2) = messages ?s2"
    by (rule impI) (rule map_other_ids)
  then show ?thesis
    unfolding Let_def m by simp
qed

theorem stale_chunks_other_ids_witness:
  "\<not> no_kb (kbId (useChat (Some ''a''))) \<and> trim ''q'' \<noteq> []
   \<and> ''assistant-'' @ dec 5 \<notin> msg_id ` set (messages
        (changeKb (sendMessage (useChat (Some ''a'')) ''q'' True 5 5) (Some ''b'')
           (Inr [\<lparr>cm_id = ''m1'', cm_knowledge_base_id = ''b'', cm_role = Assistant,
                  cm_content = ''old'', cm_sources = None, cm_created_at = ''2024''\<rparr>])))
   \<and> messages (foldl (\<lambda>s c. onEvent (length (streams (useChat (Some ''a'')))) (wire (Chunk c)) s)
        (changeKb (sendMessage (useChat (Some ''a'')) ''q'' True 5 5) (Some ''b'')
           (Inr [\<lparr>cm_id = ''m1'', cm_knowledge_base_id = ''b'', cm_role = Assistant,
                  cm_content = ''old'', cm_sources = None, cm_created_at = ''2024''\<rparr>]))
        [''X'', ''Y''])
     = messages
        (changeKb (sendMessage (useChat (Some ''a'')) ''q'' True 5 5) (Some ''b'')
           (Inr [\<lparr>cm_id = ''m1'', cm_knowledge_base_id = ''b'', cm_role = Assistant,
                  cm_content = ''old'', cm_sources = None, cm_created_at = ''2024''\<rparr>]))"
proof -
  have h1: "\<not> no_kb (kbId (useChat (Some ''a'')))"
    by (simp add: useChat_def no_kb_def)
  have h2: "trim ''q'' \<noteq> []"
    by (simp add: trim_def is_space_def)
  have h3: "''assistant-'' @ dec 5 \<notin> msg_id ` set (messages
        (changeKb (sendMessage (useChat (Some ''a'')) ''q'' True 5 5) (Some ''b'')
           (Inr [\<lparr>cm_id = ''m1'', cm_knowledge_base_id = ''b'', cm_role = Assistant,
                  cm_content = ''old'', cm_sources = None, cm_created_at = ''2024''\<rparr>])))"
    by (simp add: changeKb_def no_kb_def local_message_def)
  show ?thesis
    using stale_chunks_other_ids [OF h1 h2, of 5 5 "Some ''b''" _ "[''X'', ''Y'']"] h1 h2 h3
    unfolding Let_def by blast
qed

text \<open>
  The claim as written fails when a reloaded message carries the id of the old stream's
  assistant message: the old chunk is appended to it.
\<close>

theorem stale_chunk_same_id:
  "messages (onEvent 0 (wire (Chunk ''X''))
      (changeKb (sendMessage (useChat (Some ''a'')) ''q'' True 5 5) (Some ''b'')
         (Inr [\<lparr>cm_id = ''assistant-5'', cm_knowledge_base_id = ''b'', cm_role = Assistant,
                cm_content = ''old'', cm_sources = None, cm_created_at = ''2024''\<rparr>])))
   \<noteq> messages
      (changeKb (sendMessage (useChat (Some ''a'')) ''q'' True 5 5) (Some ''b'')
         (Inr [\<lparr>cm_id = ''assistant-5'', cm_knowledge_base_id = ''b'', cm_role = Assistant,
                cm_content = ''old'', cm_sources = None, cm_created_at = ''2024''\<rparr>]))"
  by (simp add: onEvent_def field_def text_of_def wire.simps changeKb_def local_message_def
        sendMessage_def useChat_def no_kb_def trim_def is_space_def Let_def dec.simps digit_def)

section \<open>Stopping a stream\<close>

text \<open>
  C6: with a handle in \<^verbatim>\<open>abortRef\<close> (a stream in flight), \<^verbatim>\<open>stopStreaming\<close> turns the flag
  of every message flagged as streaming to false and changes nothing else in any
  message, so the content stays what had been received; it clears \<^verbatim>\<open>loading\<close> and
  \<^verbatim>\<open>abortRef\<close>, and leaves \<^verbatim>\<open>error\<close> as it was: the abort is not reported. Whatever the
  platform answers the cancelled stream afterwards changes nothing.
\<close>

theorem stopStreaming_freezes:
  assumes "abortRef st = Some i"
  shows "let st' = stopStreaming D st
         in length (messages st') = length (messages st)
          \<and> (\<forall>j < length (messages st).
               (isStreaming (messages st ! j) = Some True \<longrightarrow>
                  messages st' ! j = (messages st ! j)\<lparr>isStreaming := Some False\<rparr>)
             \<and> (isStreaming (messages st ! j) \<noteq> Some True \<longrightarrow>
                  messages st' ! j = messages st ! j))
          \<and> loading st' = False \<and> abortRef st' = None \<and> error st' = error st
          \<and> (\<forall>x. deliver D st' i x = st')"
proof -
  obtain cbs st1 where cs: "conn_step D st i Cancel = (cbs, st1)"
    by (cases "conn_step D st i Cancel")
  have cbs: "cbs = []"
    using cs cancel_silent [of D "conn (streams st ! i)"]
    by (auto simp: conn_step_def Let_def split: if_splits prod.splits)
  have st1: "messages st1 = messages st" "error st1 = error st"
    "length (streams st1) = length (streams st)"
    using cs by (auto simp: conn_step_def Let_def split: if_splits prod.splits)
  have settled: "i < length (streams st) \<longrightarrow> pc (conn (streams st1 ! i)) = Settled"
    using cs cancel_settled [of D "conn (streams st ! i)"]
    by (auto simp: conn_step_def Let_def split: if_splits prod.splits)
  let ?st' = "st1\<lparr>abortRef := None, loading := False,
                 messages := map (\<lambda>m. if isStreaming m = Some True
                                     then m\<lparr>isStreaming := Some False\<rparr> else m) (messages st1)\<rparr>"
  have eq: "stopStreaming D st = ?st'"
    using assms cs cbs by (simp add: stopStreaming_def)
  have after: "deliver D ?st' i x = ?st'" for x
  proof (cases "i < length (streams st)")
    case True
    with settled st1(3) show ?thesis by (simp add: deliver_settled)
  next
    case False
    with st1(3) show ?thesis by (simp add: deliver_def conn_step_def)
  qed
  show ?thesis
    unfolding Let_def eq using after by (simp add: st1)
qed

theorem stopStreaming_freezes_witness:
  "abortRef (onEvent 0 (wire (Chunk ''Partial'')) (sendMessage (useChat (Some ''kb'')) ''q'' True 5 7)) = Some 0
   \<and> loading (stopStreaming (\<lambda>s. None)
        (onEvent 0 (wire (Chunk ''Partial'')) (sendMessage (useChat (Some ''kb'')) ''q'' True 5 7))) = False
   \<and> abortRef (stopStreaming (\<lambda>s. None)
        (onEvent 0 (wire (Chunk ''Partial'')) (sendMessage (useChat (Some ''kb'')) ''q'' True 5 7))) = None
   \<and> error (stopStreaming (\<lambda>s. None)
        (onEvent 0 (wire (Chunk ''Partial'')) (sendMessage (useChat (Some ''kb'')) ''q'' True 5 7))) = None
   \<and> messages (stopStreaming (\<lambda>s. None)
        (onEvent 0 (wire (Chunk ''Partial'')) (sendMessage (useChat (Some ''kb'')) ''q'' True 5 7)))
      = [\<lparr>msg_id = ''user-5'', role = User, content = ''q'', sources = None, isStreaming = None\<rparr>,
         \<lparr>msg_id = ''assistant-7'', role = Assistant, content = ''Partial'', sources = None,
          isStreaming = Some False\<rparr>]"
proof -
  let ?st = "onEvent 0 (wire (Chunk ''Partial'')) (sendMessage (useChat (Some ''kb'')) ''q'' True 5 7)"
  have h: "abortRef ?st = Some 0"
    by (simp add: onEvent_def field_def text_of_def wire.simps sendMessage_def useChat_def no_kb_def trim_def is_space_def Let_def)
  have e: "error ?st = None"
    by (simp add: onEvent_def field_def text_of_def wire.simps sendMessage_def useChat_def no_kb_def trim_def is_space_def Let_def)
  have m: "messages (stopStreaming (\<lambda>s. None) ?st)
      = [\<lparr>msg_id = ''user-5'', role = User, content = ''q'', sources = None, isStreaming = None\<rparr>,
         \<lparr>msg_id = ''assistant-7'', role = Assistant, content = ''Partial'', sources = None,
          isStreaming = Some False\<rparr>]"
    by (simp add: stopStreaming_def conn_step_def cancel_def catch_handler_def abort_error_def
          streamChat_def onEvent_def field_def text_of_def wire.simps sendMessage_def useChat_def no_kb_def trim_def is_space_def
          Let_def dec.simps digit_def)
  have "loading (stopStreaming (\<lambda>s. None) ?st) = False
      \<and> abortRef (stopStreaming (\<lambda>s. None) ?st) = None
      \<and> error (stopStreaming (\<lambda>s. None) ?st) = error ?st"
    using stopStreaming_freezes [OF h, of "\<lambda>s. None"] unfolding Let_def by blast
  with h e m show ?thesis by simp
qed

section \<open>Clearing the history\<close>

text \<open>
  C9: \<^verbatim>\<open>clearHistory\<close> changes the message sequence only when the backend call has
  succeeded (and then empties it); with a knowledge base selected, a successful call
  empties the sequence and changes nothing else, and a failed call leaves the sequence
  as it is and records an error text on the session.
\<close>

theorem clearHistory_after_success:
  "(messages (clearHistory st outcome) \<noteq> messages st \<longrightarrow>
      outcome = None \<and> \<not> no_kb (kbId st) \<and> messages (clearHistory st outcome) = [])
   \<and> (\<not> no_kb (kbId st) \<longrightarrow> clearHistory st None = st\<lparr>messages := []\<rparr>)
   \<and> (\<not> no_kb (kbId st) \<longrightarrow>
        messages (clearHistory st (Some e)) = messages st
        \<and> error (clearHistory st (Some e)) = Some (error_text e ''Failed to clear history''))"
  by (auto simp: clearHistory_def split: option.splits)

theorem clearHistory_after_success_witness:
  "\<not> no_kb (kbId (sendMessage (useChat (Some ''kb'')) ''q'' False 5 7))
   \<and> messages (clearHistory (sendMessage (useChat (Some ''kb'')) ''q'' False 5 7) None)
       \<noteq> messages (sendMessage (useChat (Some ''kb'')) ''q'' False 5 7)
   \<and> messages (clearHistory (sendMessage (useChat (Some ''kb'')) ''q'' False 5 7) None) = []
   \<and> messages (clearHistory (sendMessage (useChat (Some ''kb'')) ''q'' False 5 7)
        (Some (ErrorObj \<lparr>name = ''Error'', message = ''HTTP 500''\<rparr>)))
       = messages (sendMessage (useChat (Some ''kb'')) ''q'' False 5 7)
   \<and> error (clearHistory (sendMessage (useChat (Some ''kb'')) ''q'' False 5 7)
        (Some (ErrorObj \<lparr>name = ''Error'', message = ''HTTP 500''\<rparr>)))
       = Some ''HTTP 500''"
proof -
  let ?st = "sendMessage (useChat (Some ''kb'')) ''q'' False 5 7"
  have k: "\<not> no_kb (kbId ?st)"
    by (simp add: sendMessage_def useChat_def no_kb_def trim_def is_space_def Let_def)
  have d: "messages (clearHistory ?st None) \<noteq> messages ?st"
    by (simp add: clearHistory_def sendMessage_def useChat_def no_kb_def trim_def is_space_def Let_def)
  have t: "error_text (ErrorObj \<lparr>name = ''Error'', message = ''HTTP 500''\<rparr>) ''Failed to clear history''
      = ''HTTP 500''"
    by (simp add: error_text_def)
  from k d t
    clearHistory_after_success [of ?st None "ErrorObj \<lparr>name = ''Error'', message = ''HTTP 500''\<rparr>"]
  show ?thesis by metis
qed

end
